theory Spec2Isabelle
  imports Main "HOL-Library.Multiset"
begin

section \<open>The fake microVM server of \<^verbatim>\<open>safety.go\<close>\<close>

text \<open>
  The package keeps a slice of microVM specifications in a \<^verbatim>\<open>FakeServer\<close> and answers
  the create, delete, get and list calls of the flintlock microVM service on it. Calls may
  be gated by a shared token (\<^verbatim>\<open>basicAuthFunc\<close>).

  Modelling decisions.
  \<^item> \<^verbatim>\<open>types.MicroVMSpec\<close> comes from the flintlock API. The code reads and writes three of
    its fields: \<^verbatim>\<open>Id\<close> and \<^verbatim>\<open>Namespace\<close> (strings) and \<^verbatim>\<open>Uid\<close> (a \<^verbatim>\<open>*string\<close>, which
    may be nil). Everything else the message carries is the field \<open>Rest\<close> of an arbitrary
    type.
  \<^item> A Go string is a sequence of bytes, as a HOL \<open>string\<close> is.
  \<^item> Dereferencing a nil pointer panics. Nothing in the package recovers, so a panic ends
    the call without a reply: it is the outcome \<open>Panic\<close>.
  \<^item> A handler returns a reply or an error value: \<open>error + reply\<close>, \<open>Inl\<close> the error.
  \<^item> The collection holds pointers. A request message is decoded afresh for every call,
    so the specification handed to \<^verbatim>\<open>CreateMicroVM\<close> is shared with no stored entry,
    and no handler writes to a stored specification; the entries are modelled by value.
    Entries are specifications (non-nil pointers).
  \<^item> \<^verbatim>\<open>fmt.Println\<close> only logs; the listener and the \<^verbatim>\<open>cleanup\<close> closure belong to the
    network set-up. Neither is part of the model.
\<close>

subsection \<open>Messages\<close>

record 'p MicroVMSpec =
  Id' :: string
  Namespace :: string
  Uid :: "string option"
  Rest :: 'p

text \<open>The states of \<^verbatim>\<open>types.MicroVMStatus\<close>; \<open>PENDING\<close> is the zero value.\<close>

datatype MicroVMState = PENDING | CREATED | FAILED | DELETING

record MicroVMStatus =
  State :: MicroVMState

record 'p MicroVM =
  Version :: int
  Spec :: "'p MicroVMSpec"
  Status :: MicroVMStatus

text \<open>\<^verbatim>\<open>emptypb.Empty\<close>\<close>

datatype Empty = Empty

subsection \<open>Errors and panics\<close>

datatype code = Unauthenticated

text \<open>
  The error values the package builds: \<^verbatim>\<open>errors.New(msg)\<close>, \<^verbatim>\<open>fmt.Errorf(prefix + "%w", err)\<close>
  and \<^verbatim>\<open>status.Errorf(code, ...)\<close> with its formatted message.
\<close>

datatype error =
    errors_New string
  | fmt_Errorf string error
  | status_Errorf code string

text \<open>The text of an error, as \<^verbatim>\<open>%v\<close> prints it.\<close>

fun Error :: "error \<Rightarrow> string" where
  "Error (errors_New msg) = msg"
| "Error (fmt_Errorf prefix err) = prefix @ Error err"
| "Error (status_Errorf Unauthenticated msg) =
     ''rpc error: code = Unauthenticated desc = '' @ msg"

datatype 'a outcome = Panic | Return 'a

subsection \<open>The server\<close>

record 'p FakeServer =
  savedSpecs :: "'p MicroVMSpec list"

definition New :: "'p FakeServer" where
  "New = \<lparr>savedSpecs = []\<rparr>"

definition Load :: "'p FakeServer \<Rightarrow> 'p MicroVMSpec list \<Rightarrow> 'p FakeServer" where
  "Load s microvms = s\<lparr>savedSpecs := microvms\<rparr>"

subsection \<open>DeleteMicroVM\<close>

text \<open>
  The \<^verbatim>\<open>range\<close> loop runs over the indices of the slice as it is on entry; its length does
  not change inside the loop. At index \<open>i\<close> it reads the element, dereferences its \<open>Uid\<close>
  and, on a match, stores the last element at \<open>i\<close>.
\<close>

function DeleteMicroVM_loop ::
  "string \<Rightarrow> nat \<Rightarrow> 'p MicroVMSpec list \<Rightarrow> 'p MicroVMSpec list outcome" where
  "DeleteMicroVM_loop uid i specs =
     (if i < length specs then
        (case Uid (specs ! i) of
           None \<Rightarrow> Panic
         | Some v \<Rightarrow>
             DeleteMicroVM_loop uid (Suc i)
               (if v = uid then specs[i := specs ! (length specs - 1)] else specs))
      else Return specs)"
  by pat_completeness auto
termination
  by (relation "measure (\<lambda>(uid, i, specs). length specs - i)") auto

declare DeleteMicroVM_loop.simps [simp del]

text \<open>After the loop the slice is cut by one element, whether or not a \<open>Uid\<close> matched.\<close>

definition DeleteMicroVM ::
  "'p FakeServer \<Rightarrow> string \<Rightarrow> ('p FakeServer \<times> (error + Empty)) outcome" where
  "DeleteMicroVM s uid =
     (if length (savedSpecs s) > 0 then
        (case DeleteMicroVM_loop uid 0 (savedSpecs s) of
           Panic \<Rightarrow> Panic
         | Return specs \<Rightarrow>
             Return (s\<lparr>savedSpecs := take (length specs - 1) specs\<rparr>, Inr Empty))
      else Return (s, Inr Empty))"

subsection \<open>CreateMicroVM\<close>

text \<open>
  \<open>microvm\<close> is \<^verbatim>\<open>req.Microvm\<close>, a pointer that is nil when the request carries no
  specification. \<open>newV4\<close> is what \<^verbatim>\<open>uuid.NewV4()\<close> gives in this call: an error, or the
  identifier in its textual form (\<^verbatim>\<open>uid.String()\<close>). The generator is a library that
  draws random bytes; the handler uses its result as it comes.
\<close>

definition CreateMicroVM ::
  "'p FakeServer \<Rightarrow> 'p MicroVMSpec option \<Rightarrow> error + string \<Rightarrow>
     ('p FakeServer \<times> (error + 'p MicroVM)) outcome" where
  "CreateMicroVM s microvm newV4 =
     (case newV4 of
        Inl err \<Rightarrow> Return (s, Inl err)
      | Inr uid \<Rightarrow>
          (case microvm of
             None \<Rightarrow> Panic
           | Some spec0 \<Rightarrow>
               (let spec = spec0\<lparr>Uid := Some uid\<rparr>;
                    s' = s\<lparr>savedSpecs := savedSpecs s @ [spec]\<rparr>
                in Return (s', Inr \<lparr>Version = 0, Spec = spec, Status = \<lparr>State = PENDING\<rparr>\<rparr>))))"

subsection \<open>GetMicroVM\<close>

text \<open>The loop does not stop at a match: the last matching entry is the one kept.\<close>

fun GetMicroVM_loop ::
  "string \<Rightarrow> 'p MicroVMSpec list \<Rightarrow> 'p MicroVMSpec option \<Rightarrow> 'p MicroVMSpec option outcome"
where
  "GetMicroVM_loop uid [] requestSpec = Return requestSpec"
| "GetMicroVM_loop uid (spec # specs) requestSpec =
     (case Uid spec of
        None \<Rightarrow> Panic
      | Some v \<Rightarrow> GetMicroVM_loop uid specs (if v = uid then Some spec else requestSpec))"

definition GetMicroVM :: "'p FakeServer \<Rightarrow> string \<Rightarrow> (error + 'p MicroVM) outcome" where
  "GetMicroVM s uid =
     (case GetMicroVM_loop uid (savedSpecs s) None of
        Panic \<Rightarrow> Panic
      | Return None \<Rightarrow> Return (Inl (errors_New ''rpc error: microvm not found''))
      | Return (Some requestSpec) \<Rightarrow>
          Return (Inr \<lparr>Version = 0, Spec = requestSpec, Status = \<lparr>State = CREATED\<rparr>\<rparr>))"

subsection \<open>ListMicroVMs\<close>

text \<open>
  \<open>name\<close> is \<^verbatim>\<open>req.Name\<close>, a \<^verbatim>\<open>*string\<close>. \<^verbatim>\<open>&&\<close> evaluates its right operand, and with
  it \<^verbatim>\<open>*name\<close>, only when the left one holds.
\<close>

definition deref :: "'a option \<Rightarrow> 'a outcome" where
  "deref p = (case p of None \<Rightarrow> Panic | Some v \<Rightarrow> Return v)"

definition shouldReturn :: "'p MicroVMSpec \<Rightarrow> string option \<Rightarrow> string \<Rightarrow> bool outcome" where
  "shouldReturn spec name namespace =
     (case (if Namespace spec = namespace
            then (case deref name of Panic \<Rightarrow> Panic | Return n \<Rightarrow> Return (Id' spec = n))
            else Return False) of
        Panic \<Rightarrow> Panic
      | Return both \<Rightarrow>
          if both then Return True
          else
            (case (if Namespace spec = namespace
                   then (case deref name of Panic \<Rightarrow> Panic | Return n \<Rightarrow> Return (n = []))
                   else Return False) of
               Panic \<Rightarrow> Panic
             | Return unnamed \<Rightarrow>
                 if unnamed then Return True else Return (namespace = [])))"

fun ListMicroVMs_loop ::
  "'p MicroVMSpec list \<Rightarrow> string option \<Rightarrow> string \<Rightarrow> 'p MicroVM list \<Rightarrow> 'p MicroVM list outcome"
where
  "ListMicroVMs_loop [] name namespace microvms = Return microvms"
| "ListMicroVMs_loop (spec # specs) name namespace microvms =
     (case shouldReturn spec name namespace of
        Panic \<Rightarrow> Panic
      | Return matches \<Rightarrow>
          ListMicroVMs_loop specs name namespace
            (if matches
             then microvms @ [\<lparr>Version = 0, Spec = spec, Status = \<lparr>State = CREATED\<rparr>\<rparr>]
             else microvms))"

text \<open>The reply message has the one field \<^verbatim>\<open>Microvm\<close>, the list built by the loop.\<close>

definition ListMicroVMs ::
  "'p FakeServer \<Rightarrow> string option \<Rightarrow> string \<Rightarrow> (error + 'p MicroVM list) outcome" where
  "ListMicroVMs s name namespace =
     (case ListMicroVMs_loop (savedSpecs s) name namespace [] of
        Panic \<Rightarrow> Panic
      | Return microvms \<Rightarrow> Return (Inr microvms))"

subsection \<open>The token check\<close>

text \<open>
  \<^verbatim>\<open>base64.StdEncoding.EncodeToString\<close>: the alphabet of RFC 4648, three bytes to four
  characters, the tail padded with \<^verbatim>\<open>=\<close>.
\<close>

definition encodeStd :: string where
  "encodeStd = ''ABCDEFGHIJKLMNOPQRSTUVWXYZabcdefghijklmnopqrstuvwxyz0123456789+/''"

definition encode :: "nat \<Rightarrow> char" where
  "encode v = encodeStd ! (v mod 64)"

fun EncodeToString :: "string \<Rightarrow> string" where
  "EncodeToString (a # b # c # src) =
     (let val = of_char a * 65536 + of_char b * 256 + of_char c
      in encode (val div 262144) # encode (val div 4096) # encode (val div 64) # encode val #
         EncodeToString src)"
| "EncodeToString [a, b] =
     (let val = of_char a * 65536 + of_char b * 256
      in [encode (val div 262144), encode (val div 4096), encode (val div 64), CHR ''=''])"
| "EncodeToString [a] =
     (let val = of_char a * 65536
      in [encode (val div 262144), encode (val div 4096), CHR ''='', CHR ''=''])"
| "EncodeToString [] = []"

text \<open>\<^verbatim>\<open>strings.Compare\<close>: the three-way comparison of two strings, byte by byte.\<close>

fun Compare :: "string \<Rightarrow> string \<Rightarrow> int" where
  "Compare [] [] = 0"
| "Compare [] (b # bs) = - 1"
| "Compare (a # as) [] = 1"
| "Compare (a # as) (b # bs) =
     (if a = b then Compare as bs
      else if (of_char a :: nat) < of_char b then - 1 else 1)"

text \<open>The result is the error, \<open>None\<close> for \<^verbatim>\<open>nil\<close>.\<close>

definition validateBasicAuthToken :: "string \<Rightarrow> string \<Rightarrow> error option" where
  "validateBasicAuthToken clientToken serverToken =
     (let data = EncodeToString serverToken
      in if Compare clientToken data \<noteq> 0 then Some (errors_New ''tokens do not match'')
         else None)"

text \<open>
  \<^verbatim>\<open>grpc_auth.AuthFromMD\<close> reads the credential of a scheme from the metadata of the call.
  It belongs to the middleware library and is a parameter here: from the context and the
  scheme to an error or the credential. The context is of an arbitrary type.
\<close>

definition basicAuthFunc ::
  "('ctx \<Rightarrow> string \<Rightarrow> error + string) \<Rightarrow> string \<Rightarrow> 'ctx \<Rightarrow> error + 'ctx" where
  "basicAuthFunc AuthFromMD setServerToken ctx =
     (case AuthFromMD ctx ''basic'' of
        Inl err \<Rightarrow> Inl (fmt_Errorf ''could not extract token from request header: '' err)
      | Inr token \<Rightarrow>
          (case validateBasicAuthToken token setServerToken of
             Some err \<Rightarrow> Inl (status_Errorf Unauthenticated (''invalid auth token: '' @ Error err))
           | None \<Rightarrow> Inr ctx))"

subsection \<open>Example records\<close>

text \<open>Records for the concrete states below; the rest of the message is empty.\<close>

definition vm1 :: "unit MicroVMSpec" where
  "vm1 = \<lparr>Id' = ''vm1'', Namespace = ''ns1'', Uid = Some ''a'', Rest = ()\<rparr>"

definition vm2 :: "unit MicroVMSpec" where
  "vm2 = \<lparr>Id' = ''vm2'', Namespace = ''ns2'', Uid = Some ''b'', Rest = ()\<rparr>"

text \<open>A second record with the uid of \<open>vm1\<close>, as \<^verbatim>\<open>Load\<close> can store it.\<close>

definition vm3 :: "unit MicroVMSpec" where
  "vm3 = \<lparr>Id' = ''vm3'', Namespace = ''ns1'', Uid = Some ''a'', Rest = ()\<rparr>"

text \<open>A record with no namespace.\<close>

definition vm4 :: "unit MicroVMSpec" where
  "vm4 = \<lparr>Id' = ''vm4'', Namespace = [], Uid = Some ''d'', Rest = ()\<rparr>"

text \<open>A record whose \<open>Uid\<close> is nil, as \<^verbatim>\<open>Load\<close> can store it and as a request carries it.\<close>

definition vm5 :: "unit MicroVMSpec" where
  "vm5 = \<lparr>Id' = ''vm5'', Namespace = ''ns1'', Uid = None, Rest = ()\<rparr>"

text \<open>An identifier in the textual form in which the generator returns one.\<close>

definition uuid6 :: string where
  "uuid6 = ''6ba7b810-9dad-41d1-40b4-00c04fd430c8''"

text \<open>
  A stand-in for \<^verbatim>\<open>grpc_auth.AuthFromMD\<close> on a context that is just the credential sent
  under the scheme, if any.
\<close>

definition AuthFromMD_example :: "string option \<Rightarrow> string \<Rightarrow> error + string" where
  "AuthFromMD_example ctx expectedScheme =
     (case ctx of
        None \<Rightarrow> Inl (status_Errorf Unauthenticated (''Request unauthenticated with '' @ expectedScheme))
      | Some token \<Rightarrow> Inr token)"

section \<open>Properties\<close>

subsection \<open>What the loop of DeleteMicroVM computes\<close>

text \<open>
  The loop panics when an entry from \<open>i\<close> on has no \<open>Uid\<close>. Otherwise every entry from
  \<open>i\<close> on whose \<open>Uid\<close> matches is replaced by the last entry; the last entry itself is
  only ever replaced by itself.
\<close>

lemma DeleteMicroVM_loop_eq:
  "i \<le> length specs \<Longrightarrow>
   DeleteMicroVM_loop uid i specs =
     (if list_all (\<lambda>r. Uid r \<noteq> None) (drop i specs)
      then Return (take i specs @
                   map (\<lambda>r. if Uid r = Some uid then last specs else r) (drop i specs))
      else Panic)"
proof (induction uid i specs rule: DeleteMicroVM_loop.induct)
  case (1 uid i specs)
  show ?case
  proof (cases "i < length specs")
    case False
    then have "DeleteMicroVM_loop uid i specs = Return specs"
      by (subst DeleteMicroVM_loop.simps) simp
    with False "1.prems" show ?thesis by simp
  next
    case True
    then have ne: "specs \<noteq> []" by auto
    have dr: "drop i specs = specs ! i # drop (Suc i) specs"
      using True by (simp add: Cons_nth_drop_Suc)
    show ?thesis
    proof (cases "Uid (specs ! i)")
      case None
      then show ?thesis
        using True dr by (simp add: DeleteMicroVM_loop.simps [of uid i specs])
    next
      case (Some v)
      define specs' where
        "specs' = (if v = uid then specs[i := specs ! (length specs - 1)] else specs)"
      have len: "length specs' = length specs" by (simp add: specs'_def)
      have la: "last specs' = last specs"
        using True ne by (auto simp: specs'_def last_conv_nth nth_list_update)
      have dr': "drop (Suc i) specs' = drop (Suc i) specs"
        by (simp add: specs'_def)
      have tk': "take (Suc i) specs' =
                 take i specs @ [if v = uid then last specs else specs ! i]"
        using True ne
        by (auto simp: specs'_def take_Suc_conv_app_nth last_conv_nth)
      have ih: "DeleteMicroVM_loop uid (Suc i) specs' =
                (if list_all (\<lambda>r. Uid r \<noteq> None) (drop (Suc i) specs')
                 then Return (take (Suc i) specs' @
                   map (\<lambda>r. if Uid r = Some uid then last specs' else r) (drop (Suc i) specs'))
                 else Panic)"
        using "1.IH" [OF True Some] True len unfolding specs'_def by simp
      have step: "DeleteMicroVM_loop uid i specs = DeleteMicroVM_loop uid (Suc i) specs'"
        using True Some
        by (simp add: DeleteMicroVM_loop.simps [of uid i specs] specs'_def)
      show ?thesis
        unfolding step ih dr' tk' la using Some by (simp add: dr)
    qed
  qed
qed

lemma DeleteMicroVM_eq:
  "DeleteMicroVM s uid =
     (if savedSpecs s = [] then Return (s, Inr Empty)
      else if list_all (\<lambda>r. Uid r \<noteq> None) (savedSpecs s)
      then Return (s\<lparr>savedSpecs :=
                      butlast (map (\<lambda>r. if Uid r = Some uid then last (savedSpecs s) else r)
                                 (savedSpecs s))\<rparr>, Inr Empty)
      else Panic)"
  by (simp add: DeleteMicroVM_def DeleteMicroVM_loop_eq butlast_conv_take)

subsection \<open>What the loop of GetMicroVM computes\<close>

text \<open>
  The loop dereferences the \<open>Uid\<close> of every entry, so it panics when one has none; it
  returns the last matching entry.
\<close>

lemma GetMicroVM_loop_snoc:
  "list_all (\<lambda>r. Uid r \<noteq> None) specs \<Longrightarrow> Uid spec = Some uid \<Longrightarrow>
   GetMicroVM_loop uid (specs @ [spec]) requestSpec = Return (Some spec)"
  by (induction specs arbitrary: requestSpec) auto

lemma GetMicroVM_loop_no_match:
  "list_all (\<lambda>r. Uid r \<noteq> None \<and> Uid r \<noteq> Some uid) specs \<Longrightarrow>
   GetMicroVM_loop uid specs requestSpec = Return requestSpec"
  by (induction specs arbitrary: requestSpec) auto

lemma GetMicroVM_loop_Panic:
  "\<not> list_all (\<lambda>r. Uid r \<noteq> None) specs \<Longrightarrow>
   GetMicroVM_loop uid specs requestSpec = Panic"
  by (induction specs arbitrary: requestSpec) (auto split: option.splits)

subsection \<open>What the filter and the loop of ListMicroVMs compute\<close>

lemma shouldReturn_Some:
  "shouldReturn spec (Some n) namespace =
     Return (Namespace spec = namespace \<and> (Id' spec = n \<or> n = []) \<or> namespace = [])"
  by (simp add: shouldReturn_def deref_def)

lemma shouldReturn_None:
  "shouldReturn spec None namespace =
     (if Namespace spec = namespace then Panic else Return (namespace = []))"
  by (simp add: shouldReturn_def deref_def)

lemma ListMicroVMs_loop_Some:
  "ListMicroVMs_loop specs (Some n) namespace microvms =
     Return (microvms @
       map (\<lambda>spec. \<lparr>Version = 0, Spec = spec, Status = \<lparr>State = CREATED\<rparr>\<rparr>)
         (filter (\<lambda>spec. Namespace spec = namespace \<and> (Id' spec = n \<or> n = []) \<or> namespace = [])
            specs))"
proof (induction specs arbitrary: microvms)
  case Nil
  show ?case by simp
next
  case (Cons spec specs)
  show ?case
    by (auto simp: shouldReturn_Some Cons.IH)
qed

lemma ListMicroVMs_loop_None:
  "ListMicroVMs_loop specs None namespace microvms =
     (if list_ex (\<lambda>spec. Namespace spec = namespace) specs then Panic
      else Return (microvms @
        map (\<lambda>spec. \<lparr>Version = 0, Spec = spec, Status = \<lparr>State = CREATED\<rparr>\<rparr>)
          (if namespace = [] then specs else [])))"
proof (induction specs arbitrary: microvms)
  case Nil
  show ?case by simp
next
  case (Cons spec specs)
  show ?case
    using Cons.IH by (auto simp: shouldReturn_None)
qed

lemma ListMicroVMs_loop_Spec:
  "ListMicroVMs_loop specs name namespace microvms = Return res \<Longrightarrow>
   Spec ` set res \<subseteq> Spec ` set microvms \<union> set specs"
proof (induction specs arbitrary: microvms)
  case Nil
  then show ?case by simp
next
  case (Cons spec specs)
  then show ?case
    by (fastforce split: outcome.splits if_splits)
qed

subsection \<open>What DeleteMicroVM does to the collection\<close>

text \<open>With no matching entry the loop changes nothing, and the cut drops the last entry.\<close>

lemma DeleteMicroVM_no_match:
  "savedSpecs s \<noteq> [] \<Longrightarrow>
   list_all (\<lambda>r. Uid r \<noteq> None \<and> Uid r \<noteq> Some uid) (savedSpecs s) \<Longrightarrow>
   DeleteMicroVM s uid = Return (s\<lparr>savedSpecs := butlast (savedSpecs s)\<rparr>, Inr Empty)"
proof -
  assume ne: "savedSpecs s \<noteq> []"
    and nm: "list_all (\<lambda>r. Uid r \<noteq> None \<and> Uid r \<noteq> Some uid) (savedSpecs s)"
  have "map (\<lambda>r. if Uid r = Some uid then last (savedSpecs s) else r) (savedSpecs s) = savedSpecs s"
    using nm by (intro map_idI) (simp add: list_all_iff)
  moreover have "list_all (\<lambda>r. Uid r \<noteq> None) (savedSpecs s)"
    using nm by (simp add: list_all_iff)
  ultimately show ?thesis
    using ne by (simp add: DeleteMicroVM_eq)
qed

text \<open>Every entry held after the call was held before it.\<close>

lemma DeleteMicroVM_subset:
  assumes "DeleteMicroVM s uid = Return (s', reply)"
  shows "set (savedSpecs s') \<subseteq> set (savedSpecs s)"
proof (cases "savedSpecs s = []")
  case True
  with assms show ?thesis by (simp add: DeleteMicroVM_eq)
next
  case False
  define f where "f = (\<lambda>r. if Uid r = Some uid then last (savedSpecs s) else r)"
  from assms False have s': "savedSpecs s' = butlast (map f (savedSpecs s))"
    by (auto simp: DeleteMicroVM_eq f_def split: if_splits)
  show ?thesis
  proof
    fix x
    assume "x \<in> set (savedSpecs s')"
    then have "x \<in> set (map f (savedSpecs s))"
      unfolding s' by (rule in_set_butlastD)
    then obtain r where "r \<in> set (savedSpecs s)" and "x = f r"
      by auto
    with False show "x \<in> set (savedSpecs s)"
      by (simp add: f_def)
  qed
qed

text \<open>
  Storing the last entry at the one matching index and cutting the last entry off keeps
  the entries that do not match, each as often as before.
\<close>

lemma unordered_remove_mset:
  assumes "length (filter P xs) = 1"
  shows "mset (butlast (map (\<lambda>r. if P r then last xs else r) xs)) =
         mset (filter (\<lambda>r. \<not> P r) xs)"
proof -
  from assms obtain y where "filter P xs = [y]"
    by (cases "filter P xs") auto
  then obtain us vs where xs: "xs = us @ y # vs"
    and us: "\<forall>u\<in>set us. \<not> P u" and y: "P y" and vs0: "[] = filter P vs"
    unfolding filter_eq_Cons_iff by blast
  from vs0 have vs: "\<forall>v\<in>set vs. \<not> P v"
    by (metis filter_empty_conv)
  define f where "f = (\<lambda>r. if P r then last xs else r)"
  have mu: "map f us = us"
    using us by (intro map_idI) (simp add: f_def)
  have mv: "map f vs = vs"
    using vs by (intro map_idI) (simp add: f_def)
  have fy: "f y = last xs"
    using y by (simp add: f_def)
  have "map f xs = map f us @ f y # map f vs"
    by (simp add: xs)
  then have m: "map (\<lambda>r. if P r then last xs else r) xs = us @ last xs # vs"
    unfolding mu mv fy by (simp add: f_def)
  have f: "filter (\<lambda>r. \<not> P r) xs = us @ vs"
    using us vs y by (simp add: xs)
  show ?thesis
  proof (cases "vs = []")
    case True
    then show ?thesis unfolding m f by simp
  next
    case False
    then have l: "last xs = last vs" by (simp add: xs)
    have bl: "butlast vs @ [last vs] = vs"
      using False by simp
    have "butlast (us @ last vs # vs) = us @ last vs # butlast vs"
      using False by (simp add: butlast_append)
    then have "mset (butlast (us @ last vs # vs)) = mset us + mset (butlast vs @ [last vs])"
      by simp
    then show ?thesis unfolding m f unfolding l bl by simp
  qed
qed

subsection \<open>What CreateMicroVM does to the collection\<close>

text \<open>
  The new record carries the identifier that the generator returned and comes last; the
  records stored before are as they were.
\<close>

lemma CreateMicroVM_keeps_stored:
  assumes "CreateMicroVM s microvm generated = Return (s', Inr m)"
  shows "\<exists>uid. generated = Inr uid \<and> Uid (Spec m) = Some uid \<and>
               savedSpecs s' = savedSpecs s @ [Spec m]"
  using assms
  by (auto simp: CreateMicroVM_def Let_def split: sum.splits option.splits)

subsection \<open>The comparison of the tokens\<close>

lemma Compare_eq_0: "Compare a b = 0 \<longleftrightarrow> a = b"
  by (induction a b rule: Compare.induct) auto

lemma validateBasicAuthToken_eq:
  "validateBasicAuthToken clientToken serverToken =
     (if clientToken = EncodeToString serverToken then None
      else Some (errors_New ''tokens do not match''))"
  by (simp add: validateBasicAuthToken_def Compare_eq_0)

section \<open>The statements of the specification\<close>

subsection \<open>Delete\<close>

text \<open>
  C1. Statement: when no stored record has uid \<open>u\<close>, Delete(u) leaves the collection
  unchanged and returns no error.

  The code returns no error, but it cuts the slice by one element after the loop whether
  or not an entry matched (\<open>DeleteMicroVM_no_match\<close>). With the records \<open>vm1\<close> (uid a)
  and \<open>vm2\<close> (uid b) stored, deleting the uid c drops \<open>vm2\<close>.
\<close>

theorem DeleteMicroVM_absent_uid_drops_last:
  "DeleteMicroVM \<lparr>savedSpecs = [vm1, vm2]\<rparr> ''c'' = Return (\<lparr>savedSpecs = [vm1]\<rparr>, Inr Empty)"
  by (simp add: DeleteMicroVM_eq vm1_def vm2_def)

text \<open>
  C2. Statement: when two or more stored records share the uid \<open>u\<close>, Delete(u) removes all
  of them in one pass, the collection shrinking by one for each match, so that no record
  with uid \<open>u\<close> remains.

  The code stores the last entry at every matching index and then cuts the slice once.
  With \<open>vm1\<close> and \<open>vm3\<close> stored, both of uid a, deleting a leaves \<open>vm3\<close>, whose uid is
  a: the length went down by one and a record of that uid remains. With \<open>vm2\<close> (uid b)
  stored after them, deleting a leaves \<open>vm2\<close> twice.
\<close>

theorem DeleteMicroVM_duplicate_uid:
  "DeleteMicroVM \<lparr>savedSpecs = [vm1, vm3]\<rparr> ''a'' = Return (\<lparr>savedSpecs = [vm3]\<rparr>, Inr Empty) \<and>
   Uid vm3 = Some ''a'' \<and>
   DeleteMicroVM \<lparr>savedSpecs = [vm1, vm3, vm2]\<rparr> ''a'' =
     Return (\<lparr>savedSpecs = [vm2, vm2]\<rparr>, Inr Empty)"
  by (simp add: DeleteMicroVM_eq vm1_def vm2_def vm3_def)

text \<open>
  C5. When exactly one stored record has uid \<open>u\<close> and Delete(u) returns without error,
  then Get(u) on the resulting collection fails with the not-found error, no List call on
  it returns a record of uid \<open>u\<close>, and the collection holds the other records, each as
  often as before (their order may have changed).
\<close>

theorem DeleteMicroVM_then_Get_List:
  assumes "length (filter (\<lambda>r. Uid r = Some u) (savedSpecs s)) = 1"
    and "DeleteMicroVM s u = Return (s', Inr reply)"
  shows "GetMicroVM s' u = Return (Inl (errors_New ''rpc error: microvm not found'')) \<and>
         (\<forall>name namespace microvms.
            ListMicroVMs s' name namespace = Return (Inr microvms) \<longrightarrow>
            list_all (\<lambda>m. Uid (Spec m) \<noteq> Some u) microvms) \<and>
         mset (savedSpecs s') = mset (filter (\<lambda>r. Uid r \<noteq> Some u) (savedSpecs s))"
proof -
  from assms(1) have ne: "savedSpecs s \<noteq> []" by auto
  from assms(2) ne have all: "list_all (\<lambda>r. Uid r \<noteq> None) (savedSpecs s)"
    and s': "savedSpecs s' =
      butlast (map (\<lambda>r. if Uid r = Some u then last (savedSpecs s) else r) (savedSpecs s))"
    by (auto simp: DeleteMicroVM_eq split: if_splits)
  have ms: "mset (savedSpecs s') = mset (filter (\<lambda>r. Uid r \<noteq> Some u) (savedSpecs s))"
    unfolding s' using assms(1) by (rule unordered_remove_mset)
  have "set (savedSpecs s') = set (filter (\<lambda>r. Uid r \<noteq> Some u) (savedSpecs s))"
    using ms by (rule mset_eq_setD)
  with all have rest: "\<forall>r\<in>set (savedSpecs s'). Uid r \<noteq> None \<and> Uid r \<noteq> Some u"
    by (auto simp: list_all_iff)
  then have "GetMicroVM_loop u (savedSpecs s') None = Return None"
    by (intro GetMicroVM_loop_no_match) (simp add: list_all_iff)
  then have g: "GetMicroVM s' u = Return (Inl (errors_New ''rpc error: microvm not found''))"
    by (simp add: GetMicroVM_def)
  have l: "list_all (\<lambda>m. Uid (Spec m) \<noteq> Some u) microvms"
    if "ListMicroVMs s' name namespace = Return (Inr microvms)" for name namespace microvms
  proof -
    from that have "ListMicroVMs_loop (savedSpecs s') name namespace [] = Return microvms"
      by (auto simp: ListMicroVMs_def split: outcome.splits)
    from ListMicroVMs_loop_Spec [OF this]
    have "Spec ` set microvms \<subseteq> set (savedSpecs s')"
      by simp
    with rest show ?thesis
      by (auto simp: list_all_iff)
  qed
  from g l ms show ?thesis by blast
qed

text \<open>
  The records \<open>vm1\<close>, \<open>vm2\<close> and \<open>vm4\<close> are stored and the uid of \<open>vm1\<close> is deleted:
  \<open>vm4\<close> takes its place.
\<close>

theorem DeleteMicroVM_then_Get_List_witness:
  "DeleteMicroVM \<lparr>savedSpecs = [vm1, vm2, vm4]\<rparr> ''a'' =
     Return (\<lparr>savedSpecs = [vm4, vm2]\<rparr>, Inr Empty) \<and>
   GetMicroVM \<lparr>savedSpecs = [vm4, vm2]\<rparr> ''a'' =
     Return (Inl (errors_New ''rpc error: microvm not found'')) \<and>
   ListMicroVMs \<lparr>savedSpecs = [vm4, vm2]\<rparr> (Some []) [] =
     Return (Inr [\<lparr>Version = 0, Spec = vm4, Status = \<lparr>State = CREATED\<rparr>\<rparr>,
                  \<lparr>Version = 0, Spec = vm2, Status = \<lparr>State = CREATED\<rparr>\<rparr>]) \<and>
   list_all (\<lambda>m. Uid (Spec m) \<noteq> Some ''a'')
     [\<lparr>Version = 0, Spec = vm4, Status = \<lparr>State = CREATED\<rparr>\<rparr>,
      \<lparr>Version = 0, Spec = vm2, Status = \<lparr>State = CREATED\<rparr>\<rparr>] \<and>
   mset [vm4, vm2] = mset [vm2, vm4]"
proof -
  have one: "length (filter (\<lambda>r. Uid r = Some ''a'')
               (savedSpecs \<lparr>savedSpecs = [vm1, vm2, vm4]\<rparr>)) = 1"
    by (simp add: vm1_def vm2_def vm4_def)
  have d: "DeleteMicroVM \<lparr>savedSpecs = [vm1, vm2, vm4]\<rparr> ''a'' =
             Return (\<lparr>savedSpecs = [vm4, vm2]\<rparr>, Inr Empty)"
    by (simp add: DeleteMicroVM_eq vm1_def vm2_def vm4_def)
  have l: "ListMicroVMs \<lparr>savedSpecs = [vm4, vm2]\<rparr> (Some []) [] =
     Return (Inr [\<lparr>Version = 0, Spec = vm4, Status = \<lparr>State = CREATED\<rparr>\<rparr>,
                  \<lparr>Version = 0, Spec = vm2, Status = \<lparr>State = CREATED\<rparr>\<rparr>])"
    by (simp add: ListMicroVMs_def ListMicroVMs_loop_Some)
  from DeleteMicroVM_then_Get_List [OF one d] d l show ?thesis
    by (simp add: vm1_def vm2_def vm4_def)
qed

subsection \<open>List\<close>

text \<open>
  C3. List with an empty namespace returns every stored record, whatever the name asked
  for and whatever the namespaces of the records, each with the status CREATED, provided
  the name is present in the request or no stored record has an empty namespace.
\<close>

theorem ListMicroVMs_empty_namespace:
  assumes "name \<noteq> None \<or> \<not> list_ex (\<lambda>spec. Namespace spec = []) (savedSpecs s)"
  shows "ListMicroVMs s name [] =
           Return (Inr (map (\<lambda>spec. \<lparr>Version = 0, Spec = spec, Status = \<lparr>State = CREATED\<rparr>\<rparr>)
                          (savedSpecs s)))"
proof (cases name)
  case None
  with assms show ?thesis
    by (simp add: ListMicroVMs_def ListMicroVMs_loop_None)
next
  case (Some n)
  then show ?thesis
    by (simp add: ListMicroVMs_def ListMicroVMs_loop_Some)
qed

text \<open>
  Without the proviso the statement fails: with the name absent and \<open>vm4\<close>, whose
  namespace is empty, stored, the filter dereferences the nil name and the call panics.
\<close>

theorem ListMicroVMs_nil_name_counterexample:
  "ListMicroVMs \<lparr>savedSpecs = [vm4]\<rparr> None [] = Panic \<and>
   ListMicroVMs \<lparr>savedSpecs = [vm4]\<rparr> None [] \<noteq>
     Return (Inr [\<lparr>Version = 0, Spec = vm4, Status = \<lparr>State = CREATED\<rparr>\<rparr>])"
  by (simp add: ListMicroVMs_def ListMicroVMs_loop_None vm4_def)

text \<open>A name that is present and matches no record; an absent name and no empty namespace.\<close>

theorem ListMicroVMs_empty_namespace_witness:
  "ListMicroVMs \<lparr>savedSpecs = [vm1, vm4]\<rparr> (Some ''vm2'') [] =
     Return (Inr [\<lparr>Version = 0, Spec = vm1, Status = \<lparr>State = CREATED\<rparr>\<rparr>,
                  \<lparr>Version = 0, Spec = vm4, Status = \<lparr>State = CREATED\<rparr>\<rparr>]) \<and>
   ListMicroVMs \<lparr>savedSpecs = [vm1, vm2]\<rparr> None [] =
     Return (Inr [\<lparr>Version = 0, Spec = vm1, Status = \<lparr>State = CREATED\<rparr>\<rparr>,
                  \<lparr>Version = 0, Spec = vm2, Status = \<lparr>State = CREATED\<rparr>\<rparr>])"
  using ListMicroVMs_empty_namespace [of "Some ''vm2''" "\<lparr>savedSpecs = [vm1, vm4]\<rparr>"]
    ListMicroVMs_empty_namespace [of None "\<lparr>savedSpecs = [vm1, vm2]\<rparr>"]
  by (simp add: vm1_def vm2_def)

text \<open>
  C6. For a non-empty namespace and a name that is present: when the name is empty, List
  returns exactly the stored records of that namespace; when it is not, exactly the stored
  records of that namespace whose id is the name. The records come in the order of the
  collection, each with the status CREATED.
\<close>

theorem ListMicroVMs_namespace_and_name:
  assumes "namespace \<noteq> []"
  shows "ListMicroVMs s (Some []) namespace =
           Return (Inr (map (\<lambda>spec. \<lparr>Version = 0, Spec = spec, Status = \<lparr>State = CREATED\<rparr>\<rparr>)
                          (filter (\<lambda>spec. Namespace spec = namespace) (savedSpecs s)))) \<and>
         (n \<noteq> [] \<longrightarrow>
          ListMicroVMs s (Some n) namespace =
            Return (Inr (map (\<lambda>spec. \<lparr>Version = 0, Spec = spec, Status = \<lparr>State = CREATED\<rparr>\<rparr>)
                           (filter (\<lambda>spec. Namespace spec = namespace \<and> Id' spec = n)
                              (savedSpecs s)))))"
  using assms by (simp add: ListMicroVMs_def ListMicroVMs_loop_Some)

theorem ListMicroVMs_namespace_and_name_witness:
  "ListMicroVMs \<lparr>savedSpecs = [vm1, vm2, vm3, vm4]\<rparr> (Some []) ''ns1'' =
     Return (Inr [\<lparr>Version = 0, Spec = vm1, Status = \<lparr>State = CREATED\<rparr>\<rparr>,
                  \<lparr>Version = 0, Spec = vm3, Status = \<lparr>State = CREATED\<rparr>\<rparr>]) \<and>
   ListMicroVMs \<lparr>savedSpecs = [vm1, vm2, vm3, vm4]\<rparr> (Some ''vm3'') ''ns1'' =
     Return (Inr [\<lparr>Version = 0, Spec = vm3, Status = \<lparr>State = CREATED\<rparr>\<rparr>])"
  using ListMicroVMs_namespace_and_name
          [of "''ns1''" "\<lparr>savedSpecs = [vm1, vm2, vm3, vm4]\<rparr>" "''vm3''"]
  by (simp add: vm1_def vm2_def vm3_def vm4_def)

text \<open>
  C10. With the name absent from the request, List panics exactly when a stored record
  has the namespace of the request (the empty one included), because the filter then
  dereferences the nil name. With the name present, empty or not, the filter and List
  return.
\<close>

theorem ListMicroVMs_nil_name:
  "(ListMicroVMs s None namespace = Panic \<longleftrightarrow>
      list_ex (\<lambda>spec. Namespace spec = namespace) (savedSpecs s)) \<and>
   (shouldReturn spec None namespace = Panic \<longleftrightarrow> Namespace spec = namespace) \<and>
   (\<exists>matches. shouldReturn spec (Some n) namespace = Return matches) \<and>
   (\<exists>microvms. ListMicroVMs s (Some n) namespace = Return (Inr microvms))"
  by (simp add: ListMicroVMs_def ListMicroVMs_loop_None ListMicroVMs_loop_Some
      shouldReturn_None shouldReturn_Some)

theorem ListMicroVMs_nil_name_witness:
  "ListMicroVMs \<lparr>savedSpecs = [vm1, vm2]\<rparr> None ''ns2'' = Panic \<and>
   ListMicroVMs \<lparr>savedSpecs = [vm2, vm4]\<rparr> None [] = Panic \<and>
   ListMicroVMs \<lparr>savedSpecs = [vm1, vm2]\<rparr> None ''ns3'' = Return (Inr []) \<and>
   shouldReturn vm2 None ''ns2'' = Panic \<and>
   shouldReturn vm2 (Some []) ''ns2'' = Return True"
  using ListMicroVMs_nil_name [of "\<lparr>savedSpecs = [vm1, vm2]\<rparr>" "''ns2''" vm2 "[]"]
    ListMicroVMs_nil_name [of "\<lparr>savedSpecs = [vm2, vm4]\<rparr>" "[]" vm2 "[]"]
  by (simp add: vm1_def vm2_def vm4_def ListMicroVMs_def shouldReturn_def deref_def)

subsection \<open>Create\<close>

text \<open>
  C8. When the generator returns an identifier, Create of a specification sets it as the
  uid of the specification, appends the record to the end of the collection and returns
  it with version 0 and the empty status. When the generator fails, Create returns its
  error and the collection as it was.
\<close>

theorem CreateMicroVM_appends:
  "CreateMicroVM s (Some spec) (Inr uid) =
     Return (s\<lparr>savedSpecs := savedSpecs s @ [spec\<lparr>Uid := Some uid\<rparr>]\<rparr>,
             Inr \<lparr>Version = 0, Spec = spec\<lparr>Uid := Some uid\<rparr>, Status = \<lparr>State = PENDING\<rparr>\<rparr>) \<and>
   CreateMicroVM s microvm (Inl err) = Return (s, Inl err)"
  by (simp add: CreateMicroVM_def Let_def)

text \<open>
  C4. When every record stored before has a uid and Create succeeds, returning a record of
  uid \<open>u\<close>, then Get(u) right after it succeeds and returns the specification that Create
  stored last, with the status CREATED.
\<close>

theorem CreateMicroVM_then_GetMicroVM:
  assumes "list_all (\<lambda>r. Uid r \<noteq> None) (savedSpecs s)"
    and "CreateMicroVM s microvm generated = Return (s', Inr m)"
    and "Uid (Spec m) = Some u"
  shows "GetMicroVM s' u =
           Return (Inr \<lparr>Version = 0, Spec = Spec m, Status = \<lparr>State = CREATED\<rparr>\<rparr>) \<and>
         last (savedSpecs s') = Spec m"
proof -
  from assms(2) have s': "savedSpecs s' = savedSpecs s @ [Spec m]"
    by (auto simp: CreateMicroVM_def Let_def split: sum.splits option.splits)
  have "GetMicroVM_loop u (savedSpecs s @ [Spec m]) None = Return (Some (Spec m))"
    using assms(1,3) by (rule GetMicroVM_loop_snoc)
  then show ?thesis
    by (simp add: GetMicroVM_def s')
qed

text \<open>
  Without the condition on the stored records the statement fails: \<open>vm5\<close> has no uid,
  and the loop of Get dereferences the \<open>Uid\<close> of every entry on its way to the new one.
\<close>

theorem CreateMicroVM_then_GetMicroVM_counterexample:
  "CreateMicroVM \<lparr>savedSpecs = [vm5]\<rparr> (Some vm1) (Inr uuid6) =
     Return (\<lparr>savedSpecs = [vm5, vm1\<lparr>Uid := Some uuid6\<rparr>]\<rparr>,
             Inr \<lparr>Version = 0, Spec = vm1\<lparr>Uid := Some uuid6\<rparr>, Status = \<lparr>State = PENDING\<rparr>\<rparr>) \<and>
   GetMicroVM \<lparr>savedSpecs = [vm5, vm1\<lparr>Uid := Some uuid6\<rparr>]\<rparr> uuid6 = Panic"
  by (simp add: CreateMicroVM_def Let_def GetMicroVM_def vm5_def)

theorem CreateMicroVM_then_GetMicroVM_witness:
  "CreateMicroVM \<lparr>savedSpecs = [vm2]\<rparr> (Some vm1) (Inr uuid6) =
     Return (\<lparr>savedSpecs = [vm2, vm1\<lparr>Uid := Some uuid6\<rparr>]\<rparr>,
             Inr \<lparr>Version = 0, Spec = vm1\<lparr>Uid := Some uuid6\<rparr>, Status = \<lparr>State = PENDING\<rparr>\<rparr>) \<and>
   GetMicroVM \<lparr>savedSpecs = [vm2, vm1\<lparr>Uid := Some uuid6\<rparr>]\<rparr> uuid6 =
     Return (Inr \<lparr>Version = 0, Spec = vm1\<lparr>Uid := Some uuid6\<rparr>, Status = \<lparr>State = CREATED\<rparr>\<rparr>)"
proof -
  have a: "list_all (\<lambda>r. Uid r \<noteq> None) (savedSpecs \<lparr>savedSpecs = [vm2]\<rparr>)"
    by (simp add: vm2_def)
  have c: "CreateMicroVM \<lparr>savedSpecs = [vm2]\<rparr> (Some vm1) (Inr uuid6) =
             Return (\<lparr>savedSpecs = [vm2, vm1\<lparr>Uid := Some uuid6\<rparr>]\<rparr>,
               Inr \<lparr>Version = 0, Spec = vm1\<lparr>Uid := Some uuid6\<rparr>, Status = \<lparr>State = PENDING\<rparr>\<rparr>)"
    by (simp add: CreateMicroVM_def Let_def)
  have u: "Uid (Spec \<lparr>Version = 0, Spec = vm1\<lparr>Uid := Some uuid6\<rparr>,
                       Status = \<lparr>State = PENDING\<rparr>\<rparr>) = Some uuid6"
    by simp
  from CreateMicroVM_then_GetMicroVM [OF a c u] c show ?thesis by simp
qed

text \<open>
  C9. That the uid of a new record differs from the uid of every stored record is not a
  property of the handler: \<^verbatim>\<open>CreateMicroVM\<close> takes the identifier from the generator,
  which draws it at random, and compares it with nothing. The statement holds with a
  probability that the generator determines, and a model in which the result of the
  generator is an input of the call does not express a probability. It is not stated
  here. What the handler does with the identifier, and that no handler changes a stored
  uid, is in \<open>CreateMicroVM_keeps_stored\<close> and \<open>DeleteMicroVM_subset\<close>.
\<close>

subsection \<open>The token check\<close>

text \<open>
  C7. The check accepts a call exactly when the credential of the call is, byte for byte,
  the base64 encoding of the configured secret, and then hands the context on as it is.
  A credential that differs is refused with the status Unauthenticated; when no
  credential can be read, the call fails with the error of the extraction, wrapped.
  The credential is never decoded: the secret itself as credential is refused.
\<close>

theorem basicAuthFunc_accepts_encoded_secret:
  "(basicAuthFunc AuthFromMD setServerToken ctx = Inr ctx' \<longleftrightarrow>
      AuthFromMD ctx ''basic'' = Inr (EncodeToString setServerToken) \<and> ctx' = ctx) \<and>
   (AuthFromMD ctx ''basic'' = Inr token \<and> token \<noteq> EncodeToString setServerToken \<longrightarrow>
      basicAuthFunc AuthFromMD setServerToken ctx =
        Inl (status_Errorf Unauthenticated ''invalid auth token: tokens do not match'')) \<and>
   (AuthFromMD ctx ''basic'' = Inl err \<longrightarrow>
      basicAuthFunc AuthFromMD setServerToken ctx =
        Inl (fmt_Errorf ''could not extract token from request header: '' err))"
  by (auto simp: basicAuthFunc_def validateBasicAuthToken_eq split: sum.splits)

theorem basicAuthFunc_accepts_encoded_secret_witness:
  "basicAuthFunc AuthFromMD_example ''secret'' (Some ''c2VjcmV0'') = Inr (Some ''c2VjcmV0'') \<and>
   basicAuthFunc AuthFromMD_example ''secret'' (Some ''secret'') =
     Inl (status_Errorf Unauthenticated ''invalid auth token: tokens do not match'') \<and>
   basicAuthFunc AuthFromMD_example ''secret'' None =
     Inl (fmt_Errorf ''could not extract token from request header: ''
            (status_Errorf Unauthenticated ''Request unauthenticated with basic''))"
  using
    basicAuthFunc_accepts_encoded_secret
      [of AuthFromMD_example "''secret''" "Some ''c2VjcmV0''" "Some ''c2VjcmV0''"]
    basicAuthFunc_accepts_encoded_secret
      [of AuthFromMD_example "''secret''" "Some ''secret''" _ "''secret''"]
    basicAuthFunc_accepts_encoded_secret
      [of AuthFromMD_example "''secret''" None _ _
          "status_Errorf Unauthenticated ''Request unauthenticated with basic''"]
  by (simp add: AuthFromMD_example_def encode_def encodeStd_def)

end
